theory Spec2Isabelle
  imports Complex_Main "HOL-Library.Word" "HOL-Library.Log_Nat"
begin

section \<open>Event codes of the input subsystem\<close>

text \<open>
  The source names its event types and codes through \<open>evdev.ecodes\<close>; the values are
  those of the kernel header \<open>input-event-codes.h\<close>. Codes are plain Python integers,
  compared with \<open>==\<close> and \<open>in\<close>, so they are modelled as \<open>int\<close>.
\<close>

definition EV_KEY :: int where "EV_KEY = 1"
definition EV_ABS :: int where "EV_ABS = 3"

definition ABS_X :: int where "ABS_X = 0"
definition ABS_Y :: int where "ABS_Y = 1"
definition ABS_Z :: int where "ABS_Z = 2"
definition ABS_RX :: int where "ABS_RX = 3"
definition ABS_RY :: int where "ABS_RY = 4"
definition ABS_RZ :: int where "ABS_RZ = 5"
definition ABS_HAT0X :: int where "ABS_HAT0X = 16"
definition ABS_HAT0Y :: int where "ABS_HAT0Y = 17"

definition BTN_SOUTH :: int where "BTN_SOUTH = 304"
definition BTN_EAST :: int where "BTN_EAST = 305"
definition BTN_C :: int where "BTN_C = 306"
definition BTN_NORTH :: int where "BTN_NORTH = 307"
definition BTN_WEST :: int where "BTN_WEST = 308"
definition BTN_Z :: int where "BTN_Z = 309"
definition BTN_TL :: int where "BTN_TL = 310"
definition BTN_TR :: int where "BTN_TR = 311"
definition BTN_TL2 :: int where "BTN_TL2 = 312"
definition BTN_TR2 :: int where "BTN_TR2 = 313"
definition BTN_SELECT :: int where "BTN_SELECT = 314"
definition BTN_START :: int where "BTN_START = 315"
definition BTN_MODE :: int where "BTN_MODE = 316"
definition BTN_THUMBL :: int where "BTN_THUMBL = 317"
definition BTN_THUMBR :: int where "BTN_THUMBR = 318"
definition BTN_DPAD_UP :: int where "BTN_DPAD_UP = 544"
definition BTN_DPAD_DOWN :: int where "BTN_DPAD_DOWN = 545"
definition BTN_DPAD_LEFT :: int where "BTN_DPAD_LEFT = 546"
definition BTN_DPAD_RIGHT :: int where "BTN_DPAD_RIGHT = 547"

lemmas ecodes_defs =
  EV_KEY_def EV_ABS_def
  ABS_X_def ABS_Y_def ABS_Z_def ABS_RX_def ABS_RY_def ABS_RZ_def ABS_HAT0X_def ABS_HAT0Y_def
  BTN_SOUTH_def BTN_EAST_def BTN_C_def BTN_NORTH_def BTN_WEST_def BTN_Z_def BTN_TL_def
  BTN_TR_def BTN_TL2_def BTN_TR2_def BTN_SELECT_def BTN_START_def BTN_MODE_def
  BTN_THUMBL_def BTN_THUMBR_def BTN_DPAD_UP_def BTN_DPAD_DOWN_def BTN_DPAD_LEFT_def
  BTN_DPAD_RIGHT_def

section \<open>Configuration\<close>

definition LEFT_DEADZONE :: int where "LEFT_DEADZONE = 3500"
definition LEFT_JITTER :: int where "LEFT_JITTER = 300"
definition RIGHT_DEADZONE :: int where "RIGHT_DEADZONE = 2000"
definition RIGHT_JITTER :: int where "RIGHT_JITTER = 300"
definition L2_MAX :: int where "L2_MAX = 1023"
definition R2_MAX :: int where "R2_MAX = 1023"

lemmas config_defs =
  LEFT_DEADZONE_def LEFT_JITTER_def RIGHT_DEADZONE_def RIGHT_JITTER_def L2_MAX_def R2_MAX_def

section \<open>Exceptions\<close>

text \<open>
  Every exception the modelled code can raise is a value: \<open>StructError\<close> for
  \<open>struct.unpack_from\<close> on a buffer that is too short, \<open>OverflowError\<close> for an integer
  too large for a float, \<open>KeyError\<close> for a missing dictionary key, \<open>OSError\<close> for a read
  that fails other than by having no data.
\<close>

datatype error = StructError | OverflowError | KeyError | OSError

section \<open>Report decoder\<close>

type_synonym byte = "8 word"

text \<open>
  \<open>struct.unpack_from("<H", buf, off)[0]\<close>: the little-endian unsigned 16-bit integer at
  \<open>off\<close>; it raises when fewer than two bytes are left at the offset.
\<close>

definition unpack_from_u16_le :: "byte list \<Rightarrow> nat \<Rightarrow> error + int" where
  "unpack_from_u16_le buf off =
     (if length buf < off + 2 then Inl StructError
      else Inr (uint (buf ! off) + 256 * uint (buf ! (off + 1))))"

text \<open>
  \<open>parse_report6\<close>: \<open>None\<close> for an empty report, a report of another type and a short
  report, in the order of the source; otherwise the field at offset 9.
\<close>

definition parse_report6 :: "byte list \<Rightarrow> error + int option" where
  "parse_report6 report =
     (if report = [] \<or> report ! 0 \<noteq> 0x06 then Inr None
      else if length report < 14 then Inr None
      else (case unpack_from_u16_le report 9 of
              Inl err \<Rightarrow> Inl err
            | Inr rx \<Rightarrow> Inr (Some rx)))"

section \<open>Trigger conversion\<close>

text \<open>
  \<open>centered_u16_to_trigger\<close> computes in Python floats: \<open>delta / 0x7FFF\<close> is the true
  division of two integers, \<open>* max_val\<close> converts the integer to a float and multiplies, and
  \<open>round\<close> rounds a float to the nearest integer, a tie going to the even one. Each float
  operation gives the exact result rounded to the nearest double (53 significant bits, a tie
  going to the even significand). A double is modelled as the rational it stands for.

  \<open>binade x\<close> is the exponent \<open>e\<close> with \<open>2 ^ e \<le> \<bar>x\<bar> < 2 ^ (e + 1)\<close>, found from the bit
  lengths of numerator and denominator; \<open>to_double\<close> rounds to a multiple of
  \<open>2 ^ (e - 52)\<close>. The exponent range of a double is not modelled in \<open>to_double\<close>: the
  values that occur below are zero or of magnitude between \<open>2 ^ -15\<close> and the converted
  \<open>max_val\<close>, and \<open>int_to_float\<close> raises, as Python does, when the converted integer
  reaches \<open>2 ^ 1024\<close>.
\<close>

definition round_half_even :: "rat \<Rightarrow> int" where
  "round_half_even x =
     (let f = \<lfloor>x\<rfloor>; r = x - of_int f
      in if r < 1 / 2 then f else if 1 / 2 < r then f + 1 else if even f then f else f + 1)"

definition binade :: "rat \<Rightarrow> int" where
  "binade x =
     (let (p, q) = quotient_of \<bar>x\<bar>; e = bitlen p - bitlen q
      in if 2 powi e \<le> \<bar>x\<bar> then e else e - 1)"

definition to_double :: "rat \<Rightarrow> rat" where
  "to_double x =
     (if x = 0 then 0
      else let ulp = 2 powi (binade x - 52)
           in of_int (round_half_even (x / ulp)) * ulp)"

definition int_to_float :: "int \<Rightarrow> error + rat" where
  "int_to_float n =
     (let d = to_double (of_int n)
      in if 2 ^ 1024 \<le> \<bar>d\<bar> then Inl OverflowError else Inr d)"

definition centered_u16_to_trigger :: "int \<Rightarrow> int \<Rightarrow> error + int" where
  "centered_u16_to_trigger raw_u16 max_val =
     (let delta = raw_u16 - 0x8000;
          delta = (if delta < 0 then 0 else delta);
          delta = (if 0x7FFF < delta then 0x7FFF else delta);
          ratio = to_double (of_int delta / 0x7FFF)
      in case int_to_float max_val of
           Inl err \<Rightarrow> Inl err
         | Inr m \<Rightarrow> Inr (round_half_even (to_double (ratio * m))))"

text \<open>
  The conversion as the specification words it, in integers: the delta above the centre
  clamped to \<open>[0, 0x7FFF]\<close>, scaled by \<open>1023 / 0x7FFF\<close> and rounded to the nearest integer
  (the scaled value is never half-way between two integers, \<open>0x7FFF\<close> being odd).
\<close>

definition clamped_delta :: "int \<Rightarrow> int" where
  "clamped_delta v = min 0x7FFF (max 0 (v - 0x8000))"

definition nearest_scaled :: "int \<Rightarrow> int" where
  "nearest_scaled v = (2 * clamped_delta v * 1023 + 0x7FFF) div (2 * 0x7FFF)"

section \<open>Axis filter\<close>

text \<open>
  \<open>apply_stick_filter\<close> reads and updates the dictionary \<open>last\<close> (here \<open>last_seen\<close>,
  as \<open>last\<close> is the list function of HOL); the model returns the result together with
  the dictionary after the call.
\<close>

definition apply_stick_filter ::
  "int \<Rightarrow> int \<Rightarrow> (int \<rightharpoonup> int) \<Rightarrow> int option \<times> (int \<rightharpoonup> int)" where
  "apply_stick_filter axis_code signed_value last_seen =
     (let dz = (if axis_code = ABS_RX \<or> axis_code = ABS_RY then RIGHT_DEADZONE else LEFT_DEADZONE);
          js = (if axis_code = ABS_RX \<or> axis_code = ABS_RY then RIGHT_JITTER else LEFT_JITTER);
          v = (if \<bar>signed_value\<bar> < dz then 0 else signed_value);
          prev = last_seen axis_code
      in if prev \<noteq> None \<and> v \<noteq> 0 \<and> \<bar>v - the prev\<bar> < js then (None, last_seen)
         else if prev \<noteq> None \<and> v = 0 \<and> the prev = 0 then (None, last_seen)
         else (Some v, last_seen(axis_code \<mapsto> v)))"

text \<open>The two filter profiles and the deadzone step, as the first lines of the filter compute them.\<close>

definition deadzone_of :: "int \<Rightarrow> int" where
  "deadzone_of axis_code =
     (if axis_code = ABS_RX \<or> axis_code = ABS_RY then RIGHT_DEADZONE else LEFT_DEADZONE)"

definition jitter_of :: "int \<Rightarrow> int" where
  "jitter_of axis_code =
     (if axis_code = ABS_RX \<or> axis_code = ABS_RY then RIGHT_JITTER else LEFT_JITTER)"

definition post_deadzone :: "int \<Rightarrow> int \<Rightarrow> int" where
  "post_deadzone axis_code signed_value =
     (if \<bar>signed_value\<bar> < deadzone_of axis_code then 0 else signed_value)"

section \<open>Translation engine\<close>

text \<open>
  An input event carries a type, a code and a value. A call on the virtual device is
  \<open>ui.write(type, code, value)\<close> or \<open>ui.syn()\<close>; the model records the calls in order.
\<close>

record event =
  ev_type :: int
  ev_code :: int
  ev_value :: int

datatype ui_call = Write int int int | Syn

text \<open>The dictionary \<open>BUTTON_REMAP\<close> and the list \<open>VIRTUAL_BUTTONS\<close>.\<close>

definition BUTTON_REMAP :: "int \<rightharpoonup> int" where
  "BUTTON_REMAP = map_of
     [(BTN_SOUTH, BTN_SOUTH),
      (BTN_EAST, BTN_EAST),
      (BTN_NORTH, BTN_NORTH),
      (BTN_C, BTN_WEST),
      (BTN_WEST, BTN_TL),
      (BTN_Z, BTN_TR),
      (BTN_TR, BTN_START),
      (BTN_TL, BTN_SELECT),
      (BTN_MODE, BTN_MODE),
      (BTN_TL2, BTN_THUMBL),
      (BTN_TR2, BTN_THUMBR)]"

definition VIRTUAL_BUTTONS :: "int list" where
  "VIRTUAL_BUTTONS =
     [BTN_SOUTH, BTN_EAST, BTN_NORTH, BTN_WEST,
      BTN_TL, BTN_TR,
      BTN_SELECT, BTN_START, BTN_MODE,
      BTN_THUMBL, BTN_THUMBR,
      BTN_DPAD_UP, BTN_DPAD_DOWN, BTN_DPAD_LEFT, BTN_DPAD_RIGHT]"


definition make_uinput :: "ui_call list" where
  "make_uinput =
     [Write EV_ABS ABS_X 0,
      Write EV_ABS ABS_Y 0,
      Write EV_ABS ABS_RX 0,
      Write EV_ABS ABS_RY 0,
      Write EV_ABS ABS_Z 0,
      Write EV_ABS ABS_RZ 0,
      Write EV_ABS ABS_HAT0X 0,
      Write EV_ABS ABS_HAT0Y 0,
      Syn]"

text \<open>The local variables of \<open>main\<close> that live across events, with their initial values.\<close>

record engine =
  last_stick :: "int \<rightharpoonup> int"
  last_l2 :: int
  last_r2 :: int
  hat_x :: int
  hat_y :: int
  last_dpad :: "int \<rightharpoonup> int"

definition init_engine :: engine where
  "init_engine =
     \<lparr>last_stick = Map.empty, last_l2 = 0, last_r2 = 0, hat_x = 0, hat_y = 0,
      last_dpad = map_of [(BTN_DPAD_LEFT, 0), (BTN_DPAD_RIGHT, 0), (BTN_DPAD_UP, 0),
                          (BTN_DPAD_DOWN, 0)]\<rparr>"

text \<open>
  The loop of \<open>apply_dpad\<close> over the items of \<open>dpad\<close>, in the order of the dictionary
  literal. \<open>last_dpad[btn]\<close> raises \<open>KeyError\<close> for a missing key.
\<close>

fun dpad_loop :: "(int \<times> int) list \<Rightarrow> (int \<rightharpoonup> int) \<Rightarrow> error + ((int \<rightharpoonup> int) \<times> ui_call list)" where
  "dpad_loop [] ld = Inr (ld, [])"
| "dpad_loop ((btn, state) # items) ld =
     (case ld btn of
        None \<Rightarrow> Inl KeyError
      | Some old \<Rightarrow>
          if old \<noteq> state then
            (case dpad_loop items (ld(btn \<mapsto> state)) of
               Inl err \<Rightarrow> Inl err
             | Inr (ld', ws) \<Rightarrow> Inr (ld', Write EV_KEY btn state # ws))
          else dpad_loop items ld)"

definition apply_dpad :: "engine \<Rightarrow> error + (engine \<times> ui_call list)" where
  "apply_dpad s =
     (let dpad =
            [(BTN_DPAD_LEFT, if hat_x s = -1 then 1 else 0),
             (BTN_DPAD_RIGHT, if hat_x s = 1 then 1 else 0),
             (BTN_DPAD_UP, if hat_y s = -1 then 1 else 0),
             (BTN_DPAD_DOWN, if hat_y s = 1 then 1 else 0)]
      in case dpad_loop dpad (last_dpad s) of
           Inl err \<Rightarrow> Inl err
         | Inr (ld, ws) \<Rightarrow> Inr (s\<lparr>last_dpad := ld\<rparr>, ws))"

text \<open>
  A stick event: filter under the given output code, write when the filter accepts.
  This is the body shared by the three stick branches of the event loop.
\<close>

definition stick_event :: "int \<Rightarrow> int \<Rightarrow> engine \<Rightarrow> engine \<times> ui_call list" where
  "stick_event out_code v s =
     (case apply_stick_filter out_code v (last_stick s) of
        (None, ls) \<Rightarrow> (s\<lparr>last_stick := ls\<rparr>, [])
      | (Some filtered, ls) \<Rightarrow> (s\<lparr>last_stick := ls\<rparr>, [Write EV_ABS out_code filtered]))"

text \<open>The body of \<open>for ev in batch\<close>, one event.\<close>

definition handle_event :: "event \<Rightarrow> engine \<Rightarrow> error + (engine \<times> ui_call list)" where
  "handle_event ev s =
     (if ev_type ev = EV_KEY then
        (let out = (case BUTTON_REMAP (ev_code ev) of None \<Rightarrow> ev_code ev | Some c \<Rightarrow> c)
         in if out \<in> set VIRTUAL_BUTTONS then Inr (s, [Write EV_KEY out (ev_value ev)])
            else Inr (s, []))
      else if ev_type ev = EV_ABS then
        (if ev_code ev = ABS_X \<or> ev_code ev = ABS_Y then
           Inr (stick_event (ev_code ev) (ev_value ev) s)
         else if ev_code ev = ABS_RX then
           (if ev_value ev \<noteq> last_l2 s then
              Inr (s\<lparr>last_l2 := ev_value ev\<rparr>, [Write EV_ABS ABS_Z (ev_value ev)])
            else Inr (s, []))
         else if ev_code ev = ABS_Z then
           Inr (stick_event ABS_RX (ev_value ev) s)
         else if ev_code ev = ABS_RZ then
           Inr (stick_event ABS_RY (ev_value ev) s)
         else if ev_code ev = ABS_RY then
           Inr (s, [])
         else if ev_code ev = ABS_HAT0X then
           apply_dpad (s\<lparr>hat_x := ev_value ev\<rparr>)
         else if ev_code ev = ABS_HAT0Y then
           apply_dpad (s\<lparr>hat_y := ev_value ev\<rparr>)
         else Inr (s, []))
      else Inr (s, []))"

fun process_batch :: "event list \<Rightarrow> engine \<Rightarrow> error + (engine \<times> ui_call list)" where
  "process_batch [] s = Inr (s, [])"
| "process_batch (ev # evs) s =
     (case handle_event ev s of
        Inl err \<Rightarrow> Inl err
      | Inr (s1, ws1) \<Rightarrow>
          (case process_batch evs s1 of
             Inl err \<Rightarrow> Inl err
           | Inr (s2, ws2) \<Rightarrow> Inr (s2, ws1 @ ws2)))"

text \<open>
  What a non-blocking read gives: data, \<open>BlockingIOError\<close> (caught by the source, which goes
  on to the next ready source), or any other failure, which the source does not catch.
\<close>

datatype 'a read_result = Data 'a | WouldBlock | ReadFailed

definition on_evdev :: "event list read_result \<Rightarrow> engine \<Rightarrow> error + (engine \<times> ui_call list)" where
  "on_evdev r s =
     (case r of
        WouldBlock \<Rightarrow> Inr (s, [])
      | ReadFailed \<Rightarrow> Inl OSError
      | Data batch \<Rightarrow>
          (case process_batch batch s of
             Inl err \<Rightarrow> Inl err
           | Inr (s', ws) \<Rightarrow> Inr (s', ws @ [Syn])))"

definition on_hidraw :: "byte list read_result \<Rightarrow> engine \<Rightarrow> error + (engine \<times> ui_call list)" where
  "on_hidraw r s =
     (case r of
        WouldBlock \<Rightarrow> Inr (s, [])
      | ReadFailed \<Rightarrow> Inl OSError
      | Data data \<Rightarrow>
          (case parse_report6 data of
             Inl err \<Rightarrow> Inl err
           | Inr None \<Rightarrow> Inr (s, [])
           | Inr (Some raw_rx) \<Rightarrow>
               (case centered_u16_to_trigger raw_rx R2_MAX of
                  Inl err \<Rightarrow> Inl err
                | Inr r2_val \<Rightarrow>
                    if r2_val \<noteq> last_r2 s then
                      Inr (s\<lparr>last_r2 := r2_val\<rparr>, [Write EV_ABS ABS_RZ r2_val, Syn])
                    else Inr (s, []))))"

text \<open>
  The loop \<open>while True: for key, _mask in sel.select(): ...\<close> never ends by itself. The
  model runs it over a finite sequence of ready sources, each with what its read gives, and
  returns the engine state and the device calls made so far; an exception ends the run.
\<close>

datatype ready = Hidraw "byte list read_result" | Evdev "event list read_result"

definition service :: "ready \<Rightarrow> engine \<Rightarrow> error + (engine \<times> ui_call list)" where
  "service r s = (case r of Hidraw d \<Rightarrow> on_hidraw d s | Evdev b \<Rightarrow> on_evdev b s)"

fun run :: "ready list \<Rightarrow> engine \<Rightarrow> error + (engine \<times> ui_call list)" where
  "run [] s = Inr (s, [])"
| "run (r # rs) s =
     (case service r s of
        Inl err \<Rightarrow> Inl err
      | Inr (s1, ws1) \<Rightarrow>
          (case run rs s1 of
             Inl err \<Rightarrow> Inl err
           | Inr (s2, ws2) \<Rightarrow> Inr (s2, ws1 @ ws2)))"

definition main :: "ready list \<Rightarrow> error + (engine \<times> ui_call list)" where
  "main rs =
     (case run rs init_engine of
        Inl err \<Rightarrow> Inl err
      | Inr (s, ws) \<Rightarrow> Inr (s, make_uinput @ ws))"

section \<open>Predicates used in the statements\<close>

text \<open>
  \<open>dpad_ok\<close>: the dictionary \<open>last_dpad\<close> has its four keys, so that \<open>last_dpad[btn]\<close>
  does not raise. \<open>dpad_target\<close>: the dictionary \<open>dpad\<close> that \<open>apply_dpad\<close> builds from the
  hat position.
\<close>

definition dpad_ok :: "engine \<Rightarrow> bool" where
  "dpad_ok s =
     (last_dpad s BTN_DPAD_LEFT \<noteq> None \<and> last_dpad s BTN_DPAD_RIGHT \<noteq> None
      \<and> last_dpad s BTN_DPAD_UP \<noteq> None \<and> last_dpad s BTN_DPAD_DOWN \<noteq> None)"

definition dpad_target :: "int \<Rightarrow> int \<Rightarrow> (int \<times> int) list" where
  "dpad_target hx hy =
     [(BTN_DPAD_LEFT, if hx = -1 then 1 else 0),
      (BTN_DPAD_RIGHT, if hx = 1 then 1 else 0),
      (BTN_DPAD_UP, if hy = -1 then 1 else 0),
      (BTN_DPAD_DOWN, if hy = 1 then 1 else 0)]"





definition key_write :: "ui_call \<Rightarrow> bool" where
  "key_write c = (case c of Syn \<Rightarrow> False | Write t code v \<Rightarrow> t = EV_KEY)"

text \<open>A hat position delivered as one batch: the horizontal event, then the vertical one.\<close>

definition hat_update :: "int \<times> int \<Rightarrow> ready" where
  "hat_update p =
     Evdev (Data [\<lparr>ev_type = EV_ABS, ev_code = ABS_HAT0X, ev_value = fst p\<rparr>,
                  \<lparr>ev_type = EV_ABS, ev_code = ABS_HAT0Y, ev_value = snd p\<rparr>])"

section \<open>Properties of the report decoder\<close>

lemma parse_report6_eq:
  "parse_report6 report =
     (if report = [] \<or> length report < 14 \<or> report ! 0 \<noteq> 0x06 then Inr None
      else Inr (Some (uint (report ! 9) + 256 * uint (report ! 10))))"
  by (simp add: parse_report6_def unpack_from_u16_le_def)

text \<open>
  Claim C6. For every byte sequence, the report decoder returns "not applicable" exactly when
  the report is empty, shorter than 14 bytes, or its first byte is not 0x06; otherwise it
  returns the little-endian unsigned 16-bit integer at byte offset 9. It never raises.
\<close>

theorem parse_report6_spec:
  "(parse_report6 report = Inr None \<longleftrightarrow>
      (report = [] \<or> length report < 14 \<or> report ! 0 \<noteq> 0x06))
   \<and> (\<not> (report = [] \<or> length report < 14 \<or> report ! 0 \<noteq> 0x06) \<longrightarrow>
        parse_report6 report = Inr (Some (uint (report ! 9) + 256 * uint (report ! 10)))
        \<and> 0 \<le> uint (report ! 9) + 256 * uint (report ! 10)
        \<and> uint (report ! 9) + 256 * uint (report ! 10) \<le> 0xFFFF)"
proof -
  have lo: "0 \<le> uint (report ! 9) + 256 * uint (report ! 10)"
    by simp
  have "uint (report ! 9) < 256" "uint (report ! 10) < 256"
    using uint_bounded [of "report ! 9"] uint_bounded [of "report ! 10"] by simp_all
  then have hi: "uint (report ! 9) + 256 * uint (report ! 10) \<le> 0xFFFF"
    by simp
  show ?thesis
    using lo hi by (simp add: parse_report6_eq)
qed

theorem parse_report6_spec_witness:
  "parse_report6 [0x06, 0, 0, 0, 0, 0, 0, 0, 0, 0x34, 0x12, 0, 0, 0] = Inr (Some 0x1234)
   \<and> parse_report6 [0x05, 0, 0, 0, 0, 0, 0, 0, 0, 0x34, 0x12, 0, 0, 0] = Inr None
   \<and> parse_report6 [0x06, 0, 0, 0, 0, 0, 0, 0, 0, 0x34, 0x12, 0, 0] = Inr None
   \<and> parse_report6 [] = Inr None"
  using parse_report6_spec [of "[0x06, 0, 0, 0, 0, 0, 0, 0, 0, 0x34, 0x12, 0, 0, 0]"]
    parse_report6_spec [of "[0x05, 0, 0, 0, 0, 0, 0, 0, 0, 0x34, 0x12, 0, 0, 0]"]
    parse_report6_spec [of "[0x06, 0, 0, 0, 0, 0, 0, 0, 0, 0x34, 0x12, 0, 0]"]
    parse_report6_spec [of "[]"]
  by simp

section \<open>Properties of the trigger conversion\<close>

subsection \<open>Rounding to a double\<close>

lemma round_half_even_near: "\<bar>of_int (round_half_even y) - y\<bar> \<le> 1 / 2"
proof -
  have "of_int \<lfloor>y\<rfloor> \<le> y" "y < of_int \<lfloor>y\<rfloor> + 1"
    by linarith+
  then show ?thesis
    by (auto simp add: round_half_even_def Let_def)
qed

lemma round_half_even_unique:
  assumes "\<bar>y - of_int n\<bar> < 1 / 2"
  shows "round_half_even y = n"
proof (cases "of_int n \<le> y")
  case True
  with assms have "\<lfloor>y\<rfloor> = n" by (intro floor_unique) linarith+
  with assms True show ?thesis
    by (simp add: round_half_even_def Let_def)
next
  case False
  have "of_int (n - 1) \<le> y" "y < of_int (n - 1) + 1"
    using assms False by auto
  then have f: "\<lfloor>y\<rfloor> = n - 1" by (rule floor_unique)
  have "\<not> y - of_int (n - 1) < 1 / 2" "1 / 2 < y - of_int (n - 1)"
    using assms False by auto
  then show ?thesis
    using f by (simp add: round_half_even_def Let_def)
qed

lemma binade_le:
  assumes "x \<noteq> 0"
  shows "2 powi (binade x) \<le> \<bar>x\<bar>"
proof -
  obtain p q where pq: "quotient_of \<bar>x\<bar> = (p, q)" by (cases "quotient_of \<bar>x\<bar>")
  have q: "0 < q" using pq by (rule quotient_of_denom_pos)
  have x: "\<bar>x\<bar> = of_int p / of_int q" using pq by (rule quotient_of_div)
  have "0 < \<bar>x\<bar>" using assms by simp
  then have p: "0 < p" using q x by (simp add: zero_less_divide_iff)
  let ?e = "bitlen p - bitlen q"
  show ?thesis
  proof (cases "2 powi ?e \<le> \<bar>x\<bar>")
    case True
    then show ?thesis by (simp add: binade_def pq)
  next
    case False
    have bp: "1 \<le> bitlen p" using p by (simp add: bitlen_alt_def)
    have bq: "0 \<le> bitlen q" by (rule bitlen_nonneg)
    have "(2::int) ^ nat (bitlen p - 1) \<le> p" using bitlen_bounds [OF p] by simp
    then have "(of_int ((2::int) ^ nat (bitlen p - 1)) :: rat) \<le> of_int p"
      by (simp only: of_int_le_iff)
    then have lo: "(2::rat) powi (bitlen p - 1) \<le> of_int p"
      using bp by (simp add: power_int_nonneg_exp)
    have "q < (2::int) ^ nat (bitlen q)" using bitlen_bounds [OF q] by simp
    then have "(of_int q :: rat) < of_int ((2::int) ^ nat (bitlen q))"
      by (simp only: of_int_less_iff)
    then have hi: "(of_int q :: rat) \<le> 2 powi (bitlen q)"
      using bq by (simp add: power_int_nonneg_exp)
    have "(2::rat) powi (?e - 1) = 2 powi (bitlen p - 1) / 2 powi (bitlen q)"
      using power_int_diff [of "2::rat" "bitlen p - 1" "bitlen q"] by (simp add: algebra_simps)
    also have "\<dots> \<le> of_int p / of_int q"
      using lo hi q p by (intro frac_le) simp_all
    finally have "(2::rat) powi (?e - 1) \<le> \<bar>x\<bar>"
      using x by simp
    moreover have "binade x = ?e - 1"
      using False by (simp add: binade_def pq)
    ultimately show ?thesis by simp
  qed
qed

text \<open>With \<open>binade_le\<close>: \<open>binade x\<close> is the binary exponent of \<open>x\<close>.\<close>

lemma binade_upper:
  assumes "x \<noteq> 0"
  shows "\<bar>x\<bar> < 2 powi (binade x + 1)"
proof -
  obtain p q where pq: "quotient_of \<bar>x\<bar> = (p, q)" by (cases "quotient_of \<bar>x\<bar>")
  have q: "0 < q" using pq by (rule quotient_of_denom_pos)
  have x: "\<bar>x\<bar> = of_int p / of_int q" using pq by (rule quotient_of_div)
  have "0 < \<bar>x\<bar>" using assms by simp
  then have p: "0 < p" using q x by (simp add: zero_less_divide_iff)
  let ?e = "bitlen p - bitlen q"
  show ?thesis
  proof (cases "2 powi ?e \<le> \<bar>x\<bar>")
    case False
    then have "binade x = ?e - 1" by (simp add: binade_def pq)
    with False show ?thesis by simp
  next
    case True
    then have e: "binade x = ?e" by (simp add: binade_def pq)
    have bp: "0 \<le> bitlen p" by (rule bitlen_nonneg)
    have bq: "1 \<le> bitlen q" using q by (simp add: bitlen_alt_def)
    have "p < (2::int) ^ nat (bitlen p)" using bitlen_bounds [OF p] by simp
    then have "(of_int p :: rat) < of_int ((2::int) ^ nat (bitlen p))"
      by (simp only: of_int_less_iff)
    then have hi: "(of_int p :: rat) < 2 powi (bitlen p)"
      using bp by (simp add: power_int_nonneg_exp)
    have "(2::int) ^ nat (bitlen q - 1) \<le> q" using bitlen_bounds [OF q] by simp
    then have "(of_int ((2::int) ^ nat (bitlen q - 1)) :: rat) \<le> of_int q"
      by (simp only: of_int_le_iff)
    then have lo: "(2::rat) powi (bitlen q - 1) \<le> of_int q"
      using bq by (simp add: power_int_nonneg_exp)
    have "of_int p / of_int q < (2::rat) powi (bitlen p) / 2 powi (bitlen q - 1)"
      using hi lo q p by (intro frac_less) simp_all
    also have "\<dots> = 2 powi (?e + 1)"
      using power_int_diff [of "2::rat" "bitlen p" "bitlen q - 1"] by (simp add: algebra_simps)
    finally show ?thesis using x e by simp
  qed
qed

lemma to_double_error:
  assumes "\<bar>x\<bar> \<le> 2 powi k"
  shows "\<bar>to_double x - x\<bar> \<le> 2 powi (k - 53)"
proof (cases "x = 0")
  case True
  then show ?thesis by (simp add: to_double_def)
next
  case False
  define u :: rat where "u = 2 powi (binade x - 52)"
  have u: "0 < u" by (simp add: u_def)
  have "(2::rat) powi (binade x) \<le> 2 powi k"
    using binade_le [OF False] assms by linarith
  then have "binade x \<le> k"
    using power_int_strict_increasing [of k "binade x" "2::rat"] by (cases "binade x \<le> k") auto
  then have "u \<le> 2 powi (k - 52)"
    unfolding u_def by (intro power_int_increasing) simp_all
  also have "(2::rat) powi (k - 52) = 2 * 2 powi (k - 53)"
    using power_int_add_1' [of "2::rat" "k - 53"] by (simp add: algebra_simps)
  finally have ub: "u / 2 \<le> 2 powi (k - 53)" by simp
  have "\<bar>of_int (round_half_even (x / u)) - x / u\<bar> \<le> 1 / 2"
    by (rule round_half_even_near)
  then have "\<bar>of_int (round_half_even (x / u)) - x / u\<bar> * u \<le> 1 / 2 * u"
    using u by (intro mult_right_mono) simp_all
  moreover have "\<bar>of_int (round_half_even (x / u)) - x / u\<bar> * u
      = \<bar>of_int (round_half_even (x / u)) * u - x\<bar>"
  proof -
    have "\<bar>of_int (round_half_even (x / u)) - x / u\<bar> * u
        = \<bar>(of_int (round_half_even (x / u)) - x / u) * u\<bar>"
      using u by (simp add: abs_mult)
    also have "(of_int (round_half_even (x / u)) - x / u) * u
        = of_int (round_half_even (x / u)) * u - x"
      using u by (simp add: left_diff_distrib)
    finally show ?thesis .
  qed
  ultimately have "\<bar>of_int (round_half_even (x / u)) * u - x\<bar> \<le> u / 2" by simp
  with ub show ?thesis
    using False by (simp add: to_double_def u_def [symmetric] Let_def)
qed

lemma to_double_1023: "to_double 1023 = 1023"
  by code_simp

subsection \<open>The conversion in integers\<close>

lemma int_to_float_1023: "int_to_float 1023 = Inr 1023"
  by (simp add: int_to_float_def to_double_1023)

lemma scaled_gap:
  assumes "0 \<le> d" "d \<le> 32767"
  shows "\<bar>(of_int d / 32767 * 1023 :: rat) - of_int ((2046 * d + 32767) div 65534)\<bar>
           \<le> 32766 / 65534"
proof -
  define n where "n = (2046 * d + 32767) div 65534"
  define r where "r = (2046 * d + 32767) mod 65534"
  define z :: rat where "z = of_int d / 32767 * 1023 - of_int n"
  have eq: "2046 * d + 32767 = 65534 * n + r"
    by (simp add: n_def r_def)
  have "r mod 2 = (2046 * d + 32767) mod 2"
    unfolding r_def by (rule mod_mod_cancel) simp
  also have "\<dots> = 1" by presburger
  finally have odd: "r mod 2 = 1" .
  have "0 \<le> r" "r < 65534" by (simp_all add: r_def)
  with odd have r: "1 \<le> r" "r \<le> 65533" by presburger+
  have "of_int (2046 * d + 32767) = (of_int (65534 * n + r) :: rat)"
    using eq by (simp only:)
  then have "65534 * z = of_int r - 32767"
    by (simp add: z_def)
  moreover have "(of_int 1 :: rat) \<le> of_int r" "(of_int r :: rat) \<le> of_int 65533"
    using r by (simp_all only: of_int_le_iff)
  ultimately have "\<bar>z\<bar> \<le> 32766 / 65534"
    by simp
  then show ?thesis
    unfolding z_def n_def .
qed

lemma double_scale_exact:
  assumes "0 \<le> d" "d \<le> 32767"
  shows "round_half_even (to_double (to_double (of_int d / 0x7FFF) * 1023))
           = (2046 * d + 32767) div 65534"
proof -
  define q :: rat where "q = of_int d / 32767"
  define t where "t = to_double q"
  define p where "p = to_double (t * 1023)"
  define n where "n = (2046 * d + 32767) div 65534"
  have q: "0 \<le> q" "q \<le> 1" using assms by (simp_all add: q_def)
  have "\<bar>t - q\<bar> \<le> 2 powi (0 - 53)"
    unfolding t_def using q by (intro to_double_error) simp
  moreover have "(2::rat) powi (0 - 53) = 1 / 9007199254740992"
    by (simp add: power_int_minus_divide)
  ultimately have t: "\<bar>t - q\<bar> \<le> 1 / 9007199254740992" by (simp only:)
  have "\<bar>t * 1023\<bar> \<le> 1024" using t q by linarith
  then have "\<bar>t * 1023\<bar> \<le> 2 powi 10" by simp
  then have "\<bar>p - t * 1023\<bar> \<le> 2 powi (10 - 53)"
    unfolding p_def by (rule to_double_error)
  moreover have "(2::rat) powi (10 - 53) = 1 / 8796093022208"
    by (simp add: power_int_minus_divide)
  ultimately have p: "\<bar>p - t * 1023\<bar> \<le> 1 / 8796093022208" by (simp only:)
  have g: "\<bar>q * 1023 - of_int n\<bar> \<le> 32766 / 65534"
    unfolding q_def n_def using assms by (rule scaled_gap)
  have "\<bar>p - of_int n\<bar> < 1 / 2"
    using t p g by linarith
  then have "round_half_even p = n"
    by (rule round_half_even_unique)
  then show ?thesis by (simp add: p_def t_def q_def n_def)
qed

lemma centered_u16_to_trigger_exact:
  "centered_u16_to_trigger v R2_MAX = Inr (nearest_scaled v)"
proof -
  have d: "0 \<le> clamped_delta v" "clamped_delta v \<le> 32767"
    by (simp_all add: clamped_delta_def)
  have c: "(let delta = v - 0x8000;
          delta = (if delta < 0 then 0 else delta)
          in (if 0x7FFF < delta then 0x7FFF else delta)) = clamped_delta v"
    by (simp add: clamped_delta_def Let_def min_def max_def)
  have "centered_u16_to_trigger v R2_MAX
      = Inr (round_half_even (to_double (to_double (of_int (clamped_delta v) / 0x7FFF) * 1023)))"
    using c by (simp add: centered_u16_to_trigger_def R2_MAX_def int_to_float_1023 Let_def)
  also have "\<dots> = Inr (nearest_scaled v)"
    using double_scale_exact [OF d] by (simp add: nearest_scaled_def)
  finally show ?thesis .
qed

lemma nearest_scaled_range: "0 \<le> nearest_scaled v \<and> nearest_scaled v \<le> 1023"
proof -
  have d: "0 \<le> clamped_delta v" "clamped_delta v \<le> 32767"
    by (simp_all add: clamped_delta_def)
  have "0 \<le> (2046 * clamped_delta v + 32767) div 65534"
    using d by (intro pos_imp_zdiv_nonneg_iff [THEN iffD2]) simp_all
  moreover have "(2046 * clamped_delta v + 32767) div 65534
        \<le> (2046 * 32767 + 32767) div 65534"
    using d by (intro zdiv_mono1) simp_all
  then have "(2046 * clamped_delta v + 32767) div 65534 \<le> 1023"
    by simp
  ultimately show ?thesis
    by (simp add: nearest_scaled_def)
qed

lemma nearest_scaled_mono: "v \<le> w \<Longrightarrow> nearest_scaled v \<le> nearest_scaled w"
  unfolding nearest_scaled_def
  by (intro zdiv_mono1) (simp_all add: clamped_delta_def)

lemma nearest_scaled_below: "v < 0x8000 \<Longrightarrow> nearest_scaled v = 0"
  by (simp add: nearest_scaled_def clamped_delta_def)

text \<open>
  Claim C2. The trigger decode function, at the maximum 1023 the program uses, gives 0 for
  every reading below 0x8000, is monotonic non-decreasing from 0x8000 on, gives 0 at 0x8000
  and exactly 1023 at 0x8000 + 0x7FFF; the delta above the centre is clamped to
  \<open>[0, 0x7FFF]\<close> and scaled linearly to \<open>[0, 1023]\<close> with rounding to the nearest integer,
  and for every integer reading, in range or not, the function returns a result in
  \<open>[0, 1023]\<close> without raising.
\<close>

theorem centered_u16_to_trigger_spec:
  "(v < 0x8000 \<longrightarrow> centered_u16_to_trigger v R2_MAX = Inr 0)
   \<and> (0x8000 \<le> v \<and> v \<le> w \<longrightarrow>
        (\<exists>a b. centered_u16_to_trigger v R2_MAX = Inr a
             \<and> centered_u16_to_trigger w R2_MAX = Inr b \<and> a \<le> b))
   \<and> centered_u16_to_trigger 0x8000 R2_MAX = Inr 0
   \<and> centered_u16_to_trigger (0x8000 + 0x7FFF) R2_MAX = Inr 1023
   \<and> (\<exists>r. centered_u16_to_trigger v R2_MAX = Inr r \<and> 0 \<le> r \<and> r \<le> 1023
          \<and> \<bar>(of_int r :: rat) - of_int (clamped_delta v) * 1023 / 0x7FFF\<bar> < 1 / 2)
   \<and> clamped_delta v
        = (if v - 0x8000 < 0 then 0 else if 0x7FFF < v - 0x8000 then 0x7FFF else v - 0x8000)
   \<and> R2_MAX = 1023"
proof (intro conjI)
  show "v < 0x8000 \<longrightarrow> centered_u16_to_trigger v R2_MAX = Inr 0"
    by (simp add: centered_u16_to_trigger_exact nearest_scaled_below)
  show "0x8000 \<le> v \<and> v \<le> w \<longrightarrow>
        (\<exists>a b. centered_u16_to_trigger v R2_MAX = Inr a
             \<and> centered_u16_to_trigger w R2_MAX = Inr b \<and> a \<le> b)"
    by (simp add: centered_u16_to_trigger_exact nearest_scaled_mono)
  show "centered_u16_to_trigger 0x8000 R2_MAX = Inr 0"
    by (simp add: centered_u16_to_trigger_exact nearest_scaled_def clamped_delta_def)
  show "centered_u16_to_trigger (0x8000 + 0x7FFF) R2_MAX = Inr 1023"
    by (simp add: centered_u16_to_trigger_exact nearest_scaled_def clamped_delta_def)
  show "\<exists>r. centered_u16_to_trigger v R2_MAX = Inr r \<and> 0 \<le> r \<and> r \<le> 1023
          \<and> \<bar>(of_int r :: rat) - of_int (clamped_delta v) * 1023 / 0x7FFF\<bar> < 1 / 2"
  proof -
    have d: "0 \<le> clamped_delta v" "clamped_delta v \<le> 32767"
      by (simp_all add: clamped_delta_def)
    have n: "nearest_scaled v = (2046 * clamped_delta v + 32767) div 65534"
      by (simp add: nearest_scaled_def)
    have "\<bar>(of_int (clamped_delta v) / 32767 * 1023 :: rat) - of_int (nearest_scaled v)\<bar>
            \<le> 32766 / 65534"
      unfolding n using d by (rule scaled_gap)
    then have "\<bar>(of_int (nearest_scaled v) :: rat) - of_int (clamped_delta v) * 1023 / 0x7FFF\<bar>
            < 1 / 2"
      by (simp add: abs_minus_commute)
    then show ?thesis
      using nearest_scaled_range [of v] by (simp add: centered_u16_to_trigger_exact)
  qed
  show "clamped_delta v
        = (if v - 0x8000 < 0 then 0 else if 0x7FFF < v - 0x8000 then 0x7FFF else v - 0x8000)"
    by (simp add: clamped_delta_def)
  show "R2_MAX = 1023"
    by (simp add: R2_MAX_def)
qed

theorem centered_u16_to_trigger_spec_witness:
  "centered_u16_to_trigger 0x7000 R2_MAX = Inr 0
   \<and> (\<exists>a b. centered_u16_to_trigger 0x9000 R2_MAX = Inr a
          \<and> centered_u16_to_trigger 0xA000 R2_MAX = Inr b \<and> a \<le> b)"
  using centered_u16_to_trigger_spec [of "0x7000" "0x7000"]
    centered_u16_to_trigger_spec [of "0x9000" "0xA000"]
  by simp

section \<open>Properties of the axis filter\<close>

lemma apply_stick_filter_eq:
  "apply_stick_filter a x m =
     (let v = post_deadzone a x in
      case m a of
        None \<Rightarrow> (Some v, m(a \<mapsto> v))
      | Some prev \<Rightarrow>
          if v \<noteq> 0 \<and> \<bar>v - prev\<bar> < jitter_of a then (None, m)
          else if v = 0 \<and> prev = 0 then (None, m)
          else (Some v, m(a \<mapsto> v)))"
  by (simp add: apply_stick_filter_def post_deadzone_def deadzone_of_def jitter_of_def Let_def
      split: option.split)

lemma jitter_of_pos: "0 < jitter_of a"
  by (simp add: jitter_of_def config_defs)

text \<open>
  Claim C3. For every axis, raw value and filter state: (1) a raw value whose magnitude is
  below the deadzone of the axis's profile is replaced by zero before any comparison; (2) with
  a previous accepted value, a nonzero post-deadzone value closer to it than the jitter
  threshold gives "no update"; (3) a zero post-deadzone value after a previous accepted zero
  gives "no update"; (4) otherwise the post-deadzone value is stored for the axis and returned.
  The profile is the right-stick one (deadzone 2000, jitter 300) for the output codes of the
  right stick and the left-stick one (deadzone 3500, jitter 300) for every other code.
\<close>

theorem apply_stick_filter_spec:
  "(\<bar>x\<bar> < deadzone_of a \<longrightarrow> post_deadzone a x = 0)
   \<and> (\<not> \<bar>x\<bar> < deadzone_of a \<longrightarrow> post_deadzone a x = x)
   \<and> (\<forall>prev. m a = Some prev \<and> post_deadzone a x \<noteq> 0
          \<and> \<bar>post_deadzone a x - prev\<bar> < jitter_of a
        \<longrightarrow> apply_stick_filter a x m = (None, m))
   \<and> (m a = Some 0 \<and> post_deadzone a x = 0 \<longrightarrow> apply_stick_filter a x m = (None, m))
   \<and> (\<not> (\<exists>prev. m a = Some prev \<and> post_deadzone a x \<noteq> 0
              \<and> \<bar>post_deadzone a x - prev\<bar> < jitter_of a)
        \<and> \<not> (m a = Some 0 \<and> post_deadzone a x = 0)
        \<longrightarrow> apply_stick_filter a x m
              = (Some (post_deadzone a x), m(a \<mapsto> post_deadzone a x)))
   \<and> deadzone_of a = (if a = ABS_RX \<or> a = ABS_RY then 2000 else 3500)
   \<and> jitter_of a = 300"
proof (intro conjI)
  show "\<bar>x\<bar> < deadzone_of a \<longrightarrow> post_deadzone a x = 0"
    by (simp add: post_deadzone_def)
  show "\<not> \<bar>x\<bar> < deadzone_of a \<longrightarrow> post_deadzone a x = x"
    by (simp add: post_deadzone_def)
  show "\<forall>prev. m a = Some prev \<and> post_deadzone a x \<noteq> 0
          \<and> \<bar>post_deadzone a x - prev\<bar> < jitter_of a
        \<longrightarrow> apply_stick_filter a x m = (None, m)"
    by (simp add: apply_stick_filter_eq)
  show "m a = Some 0 \<and> post_deadzone a x = 0 \<longrightarrow> apply_stick_filter a x m = (None, m)"
    by (simp add: apply_stick_filter_eq)
  show "\<not> (\<exists>prev. m a = Some prev \<and> post_deadzone a x \<noteq> 0
              \<and> \<bar>post_deadzone a x - prev\<bar> < jitter_of a)
        \<and> \<not> (m a = Some 0 \<and> post_deadzone a x = 0)
        \<longrightarrow> apply_stick_filter a x m
              = (Some (post_deadzone a x), m(a \<mapsto> post_deadzone a x))"
    by (cases "m a") (auto simp add: apply_stick_filter_eq Let_def)
  show "deadzone_of a = (if a = ABS_RX \<or> a = ABS_RY then 2000 else 3500)"
    by (simp add: deadzone_of_def config_defs)
  show "jitter_of a = 300"
    by (simp add: jitter_of_def config_defs)
qed

theorem apply_stick_filter_spec_witness:
  "apply_stick_filter ABS_X 3000 [ABS_X \<mapsto> 4000] = (Some 0, [ABS_X \<mapsto> 0])
   \<and> apply_stick_filter ABS_X 4050 [ABS_X \<mapsto> 4000] = (None, [ABS_X \<mapsto> 4000])
   \<and> apply_stick_filter ABS_X 100 [ABS_X \<mapsto> 0] = (None, [ABS_X \<mapsto> 0])
   \<and> apply_stick_filter ABS_RX 3000 [ABS_RX \<mapsto> 0] = (Some 3000, [ABS_RX \<mapsto> 3000])"
  using apply_stick_filter_spec [of 3000 ABS_X "[ABS_X \<mapsto> 4000]"]
    apply_stick_filter_spec [of 4050 ABS_X "[ABS_X \<mapsto> 4000]"]
    apply_stick_filter_spec [of 100 ABS_X "[ABS_X \<mapsto> 0]"]
    apply_stick_filter_spec [of 3000 ABS_RX "[ABS_RX \<mapsto> 0]"]
  by (simp add: post_deadzone_def ecodes_defs)

text \<open>
  Claim C8. For every axis, raw value and prior filter state, feeding the same raw value twice
  in a row gives at most one accepted update: the second call never accepts.
\<close>

theorem apply_stick_filter_twice:
  "fst (apply_stick_filter a x (snd (apply_stick_filter a x m))) = None
   \<and> \<not> (fst (apply_stick_filter a x m) \<noteq> None
        \<and> fst (apply_stick_filter a x (snd (apply_stick_filter a x m))) \<noteq> None)"
proof -
  have "fst (apply_stick_filter a x (snd (apply_stick_filter a x m))) = None"
    using jitter_of_pos [of a]
    by (cases "m a") (auto simp add: apply_stick_filter_eq Let_def)
  then show ?thesis by simp
qed

theorem apply_stick_filter_twice_witness:
  "fst (apply_stick_filter ABS_X 4000 Map.empty) = Some 4000
   \<and> fst (apply_stick_filter ABS_X 4000 (snd (apply_stick_filter ABS_X 4000 Map.empty))) = None"
  using apply_stick_filter_twice [of ABS_X 4000 Map.empty]
  by (simp add: apply_stick_filter_eq post_deadzone_def deadzone_of_def config_defs ecodes_defs)

text \<open>
  Claim C10. When the axis filter returns "no update", the per-axis state is the one it was
  given; and for an axis with no entry in the state the call accepts, storing and returning the
  post-deadzone value.
\<close>

theorem apply_stick_filter_suppress_or_first:
  "(fst (apply_stick_filter a x m) = None \<longrightarrow> snd (apply_stick_filter a x m) = m)
   \<and> (m a = None \<longrightarrow>
        apply_stick_filter a x m = (Some (post_deadzone a x), m(a \<mapsto> post_deadzone a x)))"
proof (intro conjI impI)
  assume none: "fst (apply_stick_filter a x m) = None"
  show "snd (apply_stick_filter a x m) = m"
  proof (cases "m a")
    case None
    with none show ?thesis by (simp add: apply_stick_filter_eq Let_def)
  next
    case (Some prev)
    with none show ?thesis
      by (simp add: apply_stick_filter_eq Let_def split: if_splits)
  qed
next
  assume "m a = None"
  then show "apply_stick_filter a x m
      = (Some (post_deadzone a x), m(a \<mapsto> post_deadzone a x))"
    by (simp add: apply_stick_filter_eq Let_def)
qed

theorem apply_stick_filter_suppress_or_first_witness:
  "fst (apply_stick_filter ABS_Y 4050 [ABS_Y \<mapsto> 4000]) = None
   \<and> snd (apply_stick_filter ABS_Y 4050 [ABS_Y \<mapsto> 4000]) = [ABS_Y \<mapsto> 4000]
   \<and> apply_stick_filter ABS_Y 100 Map.empty = (Some 0, [ABS_Y \<mapsto> 0])"
  using apply_stick_filter_suppress_or_first [of ABS_Y 4050 "[ABS_Y \<mapsto> 4000]"]
    apply_stick_filter_suppress_or_first [of ABS_Y 100 Map.empty]
  by (simp add: apply_stick_filter_eq post_deadzone_def deadzone_of_def jitter_of_def
      config_defs ecodes_defs)

section \<open>Invariants of the translation engine\<close>

lemma BUTTON_REMAP_in_VIRTUAL_BUTTONS:
  "BUTTON_REMAP c = Some out \<Longrightarrow> out \<in> set VIRTUAL_BUTTONS"
  by (auto simp add: BUTTON_REMAP_def VIRTUAL_BUTTONS_def split: if_splits)

lemma dpad_loop_eq:
  "distinct (map fst items) \<Longrightarrow> \<forall>b \<in> fst ` set items. ld b \<noteq> None \<Longrightarrow>
   dpad_loop items ld
     = Inr (ld ++ map_of items,
            map (\<lambda>(b, st). Write EV_KEY b st) (filter (\<lambda>(b, st). ld b \<noteq> Some st) items))"
proof (induction items arbitrary: ld)
  case Nil
  then show ?case by simp
next
  case (Cons item items)
  obtain b st where item: "item = (b, st)" by (cases item)
  from Cons.prems item obtain old where old: "ld b = Some old" by auto
  have fresh: "b \<notin> fst ` set items" and dist: "distinct (map fst items)"
    using Cons.prems(1) item by auto
  have nodom: "b \<notin> dom (map_of items)"
    using fresh by (simp add: dom_map_of_conv_image_fst)
  let ?w = "\<lambda>(b, st). Write EV_KEY b st"
  let ?g = "\<lambda>l (b, st). l b \<noteq> Some st"
  show ?case
  proof (cases "old = st")
    case True
    have dom': "\<forall>b' \<in> fst ` set items. ld b' \<noteq> None" using Cons.prems(2) by simp
    have "(ld ++ map_of items) b = Some st"
      using nodom old True by (simp add: map_add_dom_app_simps)
    then have "(ld ++ map_of items)(b \<mapsto> st) = ld ++ map_of items"
      by (rule map_upd_triv)
    then have m: "ld ++ map_of (item # items) = ld ++ map_of items"
      by (simp add: item)
    have f: "filter (?g ld) (item # items) = filter (?g ld) items"
      using old True by (simp add: item)
    have "dpad_loop (item # items) ld = dpad_loop items ld"
      using old True by (simp add: item)
    also have "\<dots> = Inr (ld ++ map_of items, map ?w (filter (?g ld) items))"
      using dist dom' by (rule Cons.IH)
    finally show ?thesis
      by (simp only: m f)
  next
    case False
    have dom': "\<forall>b' \<in> fst ` set items. (ld(b \<mapsto> st)) b' \<noteq> None" using Cons.prems(2) by simp
    have filt: "filter (?g (ld(b \<mapsto> st))) items = filter (?g ld) items"
      using fresh by (intro filter_cong) (auto simp: image_iff)
    have "ld(b \<mapsto> st) ++ map_of items = (ld ++ map_of items)(b \<mapsto> st)"
      using nodom by (rule map_add_upd_left)
    then have m: "ld(b \<mapsto> st) ++ map_of items = ld ++ map_of (item # items)"
      by (simp add: item)
    have f: "map ?w (filter (?g ld) (item # items)) = Write EV_KEY b st # map ?w (filter (?g ld) items)"
      using old False by (simp add: item)
    have "dpad_loop (item # items) ld
        = (case dpad_loop items (ld(b \<mapsto> st)) of
             Inl err \<Rightarrow> Inl err
           | Inr (ld', ws) \<Rightarrow> Inr (ld', Write EV_KEY b st # ws))"
      using old False by (simp add: item)
    also have "dpad_loop items (ld(b \<mapsto> st))
        = Inr (ld(b \<mapsto> st) ++ map_of items, map ?w (filter (?g (ld(b \<mapsto> st))) items))"
      using dist dom' by (rule Cons.IH)
    finally show ?thesis
      by (simp only: m f filt sum.case prod.case)
  qed
qed

lemma apply_dpad_eq:
  assumes "dpad_ok s"
  shows "apply_dpad s
     = Inr (s\<lparr>last_dpad := last_dpad s ++ map_of (dpad_target (hat_x s) (hat_y s))\<rparr>,
            map (\<lambda>(b, st). Write EV_KEY b st)
              (filter (\<lambda>(b, st). last_dpad s b \<noteq> Some st) (dpad_target (hat_x s) (hat_y s))))"
proof -
  have "distinct (map fst (dpad_target (hat_x s) (hat_y s)))"
    by (simp add: dpad_target_def ecodes_defs)
  moreover have "\<forall>b \<in> fst ` set (dpad_target (hat_x s) (hat_y s)). last_dpad s b \<noteq> None"
    using assms by (simp add: dpad_target_def dpad_ok_def)
  ultimately show ?thesis
    unfolding apply_dpad_def Let_def dpad_target_def [symmetric]
    by (simp add: dpad_loop_eq)
qed


subsection \<open>The d-pad dictionary stays complete\<close>

lemma dpad_ok_init: "dpad_ok init_engine"
  by (simp add: dpad_ok_def init_engine_def ecodes_defs)

lemma dpad_ok_apply_dpad:
  assumes "dpad_ok s"
  shows "\<exists>s' ws. apply_dpad s = Inr (s', ws) \<and> dpad_ok s' \<and> (\<forall>c \<in> set ws. key_write c)"
proof -
  have "dpad_ok (s\<lparr>last_dpad := last_dpad s ++ map_of (dpad_target (hat_x s) (hat_y s))\<rparr>)"
    by (simp add: dpad_ok_def dpad_target_def ecodes_defs)
  moreover have "\<forall>c \<in> set (map (\<lambda>(b, st). Write EV_KEY b st)
              (filter (\<lambda>(b, st). last_dpad s b \<noteq> Some st) (dpad_target (hat_x s) (hat_y s)))).
            key_write c"
    by (auto simp add: key_write_def)
  ultimately show ?thesis
    using apply_dpad_eq [OF assms] by simp
qed

lemma stick_event_last_dpad: "last_dpad (fst (stick_event c v s)) = last_dpad s"
  by (simp add: stick_event_def split: prod.split option.split)

lemma stick_event_calls:
  "snd (stick_event c v s) = [] \<or> snd (stick_event c v s) = [Write EV_ABS c (post_deadzone c v)]"
  by (cases "last_stick s c")
    (auto simp add: stick_event_def apply_stick_filter_eq Let_def split: prod.split option.split)

lemma dpad_ok_hat_x [simp]: "dpad_ok (s\<lparr>hat_x := v\<rparr>) = dpad_ok s"
  by (simp add: dpad_ok_def)

lemma dpad_ok_hat_y [simp]: "dpad_ok (s\<lparr>hat_y := v\<rparr>) = dpad_ok s"
  by (simp add: dpad_ok_def)

lemma dpad_ok_last_l2 [simp]: "dpad_ok (s\<lparr>last_l2 := v\<rparr>) = dpad_ok s"
  by (simp add: dpad_ok_def)

lemma dpad_ok_last_r2 [simp]: "dpad_ok (s\<lparr>last_r2 := v\<rparr>) = dpad_ok s"
  by (simp add: dpad_ok_def)

lemma dpad_ok_stick_event [simp]: "dpad_ok (fst (stick_event c v s)) = dpad_ok s"
  by (simp add: dpad_ok_def stick_event_last_dpad)

lemma syn_not_key_write: "key_write c \<Longrightarrow> c \<noteq> Syn"
  by (auto simp add: key_write_def)

lemma handle_event_ok:
  assumes "dpad_ok s"
  shows "\<exists>s' ws. handle_event ev s = Inr (s', ws) \<and> dpad_ok s' \<and> Syn \<notin> set ws"
proof -
  have hat: "\<exists>s' ws. apply_dpad t = Inr (s', ws) \<and> dpad_ok s' \<and> Syn \<notin> set ws" if "dpad_ok t" for t
    using dpad_ok_apply_dpad [OF that] syn_not_key_write by blast
  have st: "\<exists>s' ws. Inr (stick_event c v s) = (Inr (s', ws) :: error + engine \<times> ui_call list)
              \<and> dpad_ok s' \<and> Syn \<notin> set ws" for c v
    using assms stick_event_calls [of c v s]
    by (intro exI [of _ "fst (stick_event c v s)"] exI [of _ "snd (stick_event c v s)"]) auto
  show ?thesis
    unfolding handle_event_def Let_def
    using assms hat st by (simp del: ex_simps split del: if_split add: if_distrib) (auto simp: hat st)
qed

lemma process_batch_ok:
  "dpad_ok s \<Longrightarrow>
   \<exists>s' ws. process_batch batch s = Inr (s', ws) \<and> dpad_ok s' \<and> Syn \<notin> set ws"
proof (induction batch arbitrary: s)
  case Nil
  then show ?case by simp
next
  case (Cons ev evs)
  from handle_event_ok [OF Cons.prems, of ev]
  obtain s1 ws1 where 1: "handle_event ev s = Inr (s1, ws1)" "dpad_ok s1" "Syn \<notin> set ws1"
    by blast
  from Cons.IH [OF 1(2)]
  obtain s2 ws2 where 2: "process_batch evs s1 = Inr (s2, ws2)" "dpad_ok s2" "Syn \<notin> set ws2"
    by blast
  show ?case using 1 2 by simp
qed

lemma on_hidraw_eq:
  "on_hidraw (Data data) s =
     (case parse_report6 data of
        Inr (Some raw_rx) \<Rightarrow>
          if nearest_scaled raw_rx \<noteq> last_r2 s then
            Inr (s\<lparr>last_r2 := nearest_scaled raw_rx\<rparr>,
                 [Write EV_ABS ABS_RZ (nearest_scaled raw_rx), Syn])
          else Inr (s, [])
      | _ \<Rightarrow> Inr (s, []))"
  by (simp add: on_hidraw_def parse_report6_eq centered_u16_to_trigger_exact)

lemma on_hidraw_no_data:
  "on_hidraw WouldBlock s = Inr (s, [])" "on_hidraw ReadFailed s = Inl OSError"
  by (simp_all add: on_hidraw_def)

lemma service_ok:
  assumes "dpad_ok s" and "service r s = Inr (s', ws)"
  shows "dpad_ok s'"
proof (cases r)
  case (Hidraw d)
  then show ?thesis
    using assms
    by (cases d) (auto simp add: service_def on_hidraw_eq on_hidraw_no_data
        split: sum.splits option.splits if_splits)
next
  case (Evdev b)
  show ?thesis
  proof (cases b)
    case (Data batch)
    from process_batch_ok [OF assms(1), of batch] show ?thesis
      using assms(2) Evdev Data by (auto simp add: service_def on_evdev_def)
  qed (use assms Evdev in \<open>auto simp add: service_def on_evdev_def\<close>)
qed

lemma run_ok: "dpad_ok s \<Longrightarrow> run rs s = Inr (s', ws) \<Longrightarrow> dpad_ok s'"
proof (induction rs arbitrary: s ws)
  case Nil
  then show ?case by simp
next
  case (Cons r rs)
  from Cons.prems(2) obtain s1 ws1 ws2
    where 1: "service r s = Inr (s1, ws1)" and 2: "run rs s1 = Inr (s', ws2)"
    by (auto split: sum.splits)
  from Cons.prems(1) 1 have "dpad_ok s1" by (rule service_ok)
  then show ?case using 2 by (rule Cons.IH)
qed

lemma reachable_dpad_ok: "run rs init_engine = Inr (s, ws) \<Longrightarrow> dpad_ok s"
  using run_ok [OF dpad_ok_init] .


subsection \<open>Ranges of the writes\<close>











section \<open>Properties of the translation engine\<close>

text \<open>
  Claim C1 (as amended). For every button event: if the input code is a key of the remap
  table, exactly one write is issued, with the mapped code and the event's value unmodified.
  If the input code is not a key of the table, the code itself is looked up in the virtual
  device's button list: a code in the list (select, start, the two stick clicks, the four
  d-pad directions) is written once, unchanged, with the event's value; any other code is
  dropped with no write. The engine state is unchanged in every case.
\<close>

theorem button_event_spec:
  "ev_type ev = EV_KEY \<Longrightarrow>
   (\<forall>out. BUTTON_REMAP (ev_code ev) = Some out \<longrightarrow>
      handle_event ev s = Inr (s, [Write EV_KEY out (ev_value ev)]))
   \<and> (BUTTON_REMAP (ev_code ev) = None \<and> ev_code ev \<in> set VIRTUAL_BUTTONS \<longrightarrow>
        handle_event ev s = Inr (s, [Write EV_KEY (ev_code ev) (ev_value ev)]))
   \<and> (BUTTON_REMAP (ev_code ev) = None \<and> ev_code ev \<notin> set VIRTUAL_BUTTONS \<longrightarrow>
        handle_event ev s = Inr (s, []))
   \<and> {c. BUTTON_REMAP c = None \<and> c \<in> set VIRTUAL_BUTTONS}
        = {BTN_SELECT, BTN_START, BTN_THUMBL, BTN_THUMBR,
           BTN_DPAD_UP, BTN_DPAD_DOWN, BTN_DPAD_LEFT, BTN_DPAD_RIGHT}"
proof (intro conjI)
  assume key: "ev_type ev = EV_KEY"
  show "\<forall>out. BUTTON_REMAP (ev_code ev) = Some out \<longrightarrow>
      handle_event ev s = Inr (s, [Write EV_KEY out (ev_value ev)])"
    using key BUTTON_REMAP_in_VIRTUAL_BUTTONS [of "ev_code ev"]
    by (simp add: handle_event_def)
  show "BUTTON_REMAP (ev_code ev) = None \<and> ev_code ev \<in> set VIRTUAL_BUTTONS \<longrightarrow>
        handle_event ev s = Inr (s, [Write EV_KEY (ev_code ev) (ev_value ev)])"
    using key by (simp add: handle_event_def)
  show "BUTTON_REMAP (ev_code ev) = None \<and> ev_code ev \<notin> set VIRTUAL_BUTTONS \<longrightarrow>
        handle_event ev s = Inr (s, [])"
    using key by (simp add: handle_event_def)
  show "{c. BUTTON_REMAP c = None \<and> c \<in> set VIRTUAL_BUTTONS}
        = {BTN_SELECT, BTN_START, BTN_THUMBL, BTN_THUMBR,
           BTN_DPAD_UP, BTN_DPAD_DOWN, BTN_DPAD_LEFT, BTN_DPAD_RIGHT}"
    by (auto simp add: BUTTON_REMAP_def VIRTUAL_BUTTONS_def ecodes_defs)
qed

theorem button_event_spec_witness:
  "handle_event \<lparr>ev_type = EV_KEY, ev_code = BTN_C, ev_value = 1\<rparr> init_engine
     = Inr (init_engine, [Write EV_KEY BTN_WEST 1])
   \<and> handle_event \<lparr>ev_type = EV_KEY, ev_code = BTN_SELECT, ev_value = 0\<rparr> init_engine
     = Inr (init_engine, [Write EV_KEY BTN_SELECT 0])
   \<and> handle_event \<lparr>ev_type = EV_KEY, ev_code = 999, ev_value = 1\<rparr> init_engine
     = Inr (init_engine, [])"
  using button_event_spec [of "\<lparr>ev_type = EV_KEY, ev_code = BTN_C, ev_value = 1\<rparr>" init_engine]
    button_event_spec [of "\<lparr>ev_type = EV_KEY, ev_code = BTN_SELECT, ev_value = 0\<rparr>" init_engine]
    button_event_spec [of "\<lparr>ev_type = EV_KEY, ev_code = 999, ev_value = 1\<rparr>" init_engine]
  by (simp add: BUTTON_REMAP_def VIRTUAL_BUTTONS_def ecodes_defs)

text \<open>
  The claim as first stated (a code absent from the remap table gives no write) fails: the
  start button's own code is not a key of the table, and an event carrying it is written.
\<close>

theorem button_unmapped_counterexample:
  "BUTTON_REMAP BTN_START = None
   \<and> handle_event \<lparr>ev_type = EV_KEY, ev_code = BTN_START, ev_value = 1\<rparr> init_engine
       = Inr (init_engine, [Write EV_KEY BTN_START 1])"
  by (simp add: handle_event_def BUTTON_REMAP_def VIRTUAL_BUTTONS_def ecodes_defs)

text \<open>
  Claim C5. The d-pad synthesizer derives left = on iff the horizontal hat is -1, right = on
  iff it is 1, up = on iff the vertical hat is -1, down = on iff it is 1; a hat event stores
  the new hat value and runs the synthesizer, which in every reachable state writes exactly
  those of the four direction buttons, in this order, whose derived state differs from the
  last one sent, and records the derived states as sent. For the updates
  (0,0), (-1,0), (-1,0), (0,0) from rest, each in a batch of its own, the only button writes
  are left = on in the second batch and left = off in the fourth.
\<close>

theorem apply_dpad_spec:
  "dpad_target hx hy =
     [(BTN_DPAD_LEFT, if hx = -1 then 1 else 0), (BTN_DPAD_RIGHT, if hx = 1 then 1 else 0),
      (BTN_DPAD_UP, if hy = -1 then 1 else 0), (BTN_DPAD_DOWN, if hy = 1 then 1 else 0)]
   \<and> (ev_type ev = EV_ABS \<and> ev_code ev = ABS_HAT0X \<longrightarrow>
        handle_event ev s = apply_dpad (s\<lparr>hat_x := ev_value ev\<rparr>))
   \<and> (ev_type ev = EV_ABS \<and> ev_code ev = ABS_HAT0Y \<longrightarrow>
        handle_event ev s = apply_dpad (s\<lparr>hat_y := ev_value ev\<rparr>))
   \<and> (run rs init_engine = Inr (s, out) \<longrightarrow>
        (\<forall>x y. apply_dpad (s\<lparr>hat_x := x, hat_y := y\<rparr>)
           = Inr (s\<lparr>hat_x := x, hat_y := y,
                     last_dpad := last_dpad s ++ map_of (dpad_target x y)\<rparr>,
                  map (\<lambda>(b, st). Write EV_KEY b st)
                    (filter (\<lambda>(b, st). last_dpad s b \<noteq> Some st) (dpad_target x y)))))
   \<and> (\<exists>s'. run (map hat_update [(0, 0), (-1, 0), (-1, 0), (0, 0)]) init_engine
          = Inr (s', [Syn, Write EV_KEY BTN_DPAD_LEFT 1, Syn, Syn,
                      Write EV_KEY BTN_DPAD_LEFT 0, Syn]))"
proof (intro conjI)
  show "dpad_target hx hy =
     [(BTN_DPAD_LEFT, if hx = -1 then 1 else 0), (BTN_DPAD_RIGHT, if hx = 1 then 1 else 0),
      (BTN_DPAD_UP, if hy = -1 then 1 else 0), (BTN_DPAD_DOWN, if hy = 1 then 1 else 0)]"
    by (simp add: dpad_target_def)
  show "ev_type ev = EV_ABS \<and> ev_code ev = ABS_HAT0X \<longrightarrow>
        handle_event ev s = apply_dpad (s\<lparr>hat_x := ev_value ev\<rparr>)"
    by (simp add: handle_event_def ecodes_defs)
  show "ev_type ev = EV_ABS \<and> ev_code ev = ABS_HAT0Y \<longrightarrow>
        handle_event ev s = apply_dpad (s\<lparr>hat_y := ev_value ev\<rparr>)"
    by (simp add: handle_event_def ecodes_defs)
  show "run rs init_engine = Inr (s, out) \<longrightarrow>
        (\<forall>x y. apply_dpad (s\<lparr>hat_x := x, hat_y := y\<rparr>)
           = Inr (s\<lparr>hat_x := x, hat_y := y,
                     last_dpad := last_dpad s ++ map_of (dpad_target x y)\<rparr>,
                  map (\<lambda>(b, st). Write EV_KEY b st)
                    (filter (\<lambda>(b, st). last_dpad s b \<noteq> Some st) (dpad_target x y))))"
  proof (intro impI allI)
    fix x y
    assume "run rs init_engine = Inr (s, out)"
    then have "dpad_ok (s\<lparr>hat_x := x, hat_y := y\<rparr>)"
      using reachable_dpad_ok by simp
    from apply_dpad_eq [OF this]
    show "apply_dpad (s\<lparr>hat_x := x, hat_y := y\<rparr>)
           = Inr (s\<lparr>hat_x := x, hat_y := y,
                     last_dpad := last_dpad s ++ map_of (dpad_target x y)\<rparr>,
                  map (\<lambda>(b, st). Write EV_KEY b st)
                    (filter (\<lambda>(b, st). last_dpad s b \<noteq> Some st) (dpad_target x y)))"
      by simp
  qed
  show "\<exists>s'. run (map hat_update [(0, 0), (-1, 0), (-1, 0), (0, 0)]) init_engine
          = Inr (s', [Syn, Write EV_KEY BTN_DPAD_LEFT 1, Syn, Syn,
                      Write EV_KEY BTN_DPAD_LEFT 0, Syn])"
    by (simp add: hat_update_def service_def on_evdev_def handle_event_def apply_dpad_def
        init_engine_def ecodes_defs)
qed

theorem apply_dpad_spec_witness:
  "handle_event \<lparr>ev_type = EV_ABS, ev_code = ABS_HAT0X, ev_value = 1\<rparr> init_engine
     = apply_dpad (init_engine\<lparr>hat_x := 1\<rparr>)
   \<and> handle_event \<lparr>ev_type = EV_ABS, ev_code = ABS_HAT0Y, ev_value = -1\<rparr> init_engine
     = apply_dpad (init_engine\<lparr>hat_y := -1\<rparr>)
   \<and> apply_dpad (init_engine\<lparr>hat_x := 1, hat_y := -1\<rparr>)
     = Inr (init_engine\<lparr>hat_x := 1, hat_y := -1,
                        last_dpad := last_dpad init_engine ++ map_of (dpad_target 1 (-1))\<rparr>,
            [Write EV_KEY BTN_DPAD_RIGHT 1, Write EV_KEY BTN_DPAD_UP 1])"
  using apply_dpad_spec
    [of 1 "-1" "\<lparr>ev_type = EV_ABS, ev_code = ABS_HAT0X, ev_value = 1\<rparr>" init_engine "[]" "[]"]
    apply_dpad_spec
    [of 1 "-1" "\<lparr>ev_type = EV_ABS, ev_code = ABS_HAT0Y, ev_value = -1\<rparr>" init_engine "[]" "[]"]
  by (simp add: init_engine_def ecodes_defs)

text \<open>
  Claim C9. In every state the engine can reach, a batch of events read from the event-stream
  transport is followed by exactly one frame commit: the calls of the wakeup are the writes
  of the batch, none of them a commit, and then one commit, whatever the number of writes
  (zero included); the batch never raises.
\<close>

theorem evdev_batch_one_commit:
  "run rs init_engine = Inr (s, out) \<Longrightarrow>
   \<exists>s' ws. process_batch batch s = Inr (s', ws)
     \<and> on_evdev (Data batch) s = Inr (s', ws @ [Syn])
     \<and> Syn \<notin> set ws
     \<and> count_list (ws @ [Syn]) Syn = 1"
proof -
  assume "run rs init_engine = Inr (s, out)"
  then have "dpad_ok s" by (rule reachable_dpad_ok)
  from process_batch_ok [OF this, of batch]
  obtain s' ws where b: "process_batch batch s = Inr (s', ws)" "Syn \<notin> set ws"
    by blast
  then have "on_evdev (Data batch) s = Inr (s', ws @ [Syn])"
    by (simp add: on_evdev_def)
  moreover have "count_list (ws @ [Syn]) Syn = 1"
    using b(2) by (simp add: count_list_0_iff)
  ultimately show ?thesis using b by blast
qed

theorem evdev_batch_one_commit_witness:
  "run [] init_engine = Inr (init_engine, [])
   \<and> (\<exists>s' ws. process_batch [] init_engine = Inr (s', ws)
        \<and> on_evdev (Data []) init_engine = Inr (s', ws @ [Syn])
        \<and> Syn \<notin> set ws
        \<and> count_list (ws @ [Syn]) Syn = 1)"
  using evdev_batch_one_commit [of "[]" init_engine "[]" "[]"]
  by simp

text \<open>
  Claim C4. On the binary-report transport, the calls of a wakeup are a write to the output
  right-trigger channel followed at once by a frame commit exactly when the report decodes
  to a value that differs from the last one emitted, and the value is then recorded; in every
  other case there is no call and the state is unchanged. In particular a report whose first
  byte is not the report type changes nothing and causes no call, and so does a decoded
  value equal to the last one emitted (0x8000 decodes to 0, the initial value).
\<close>

theorem on_hidraw_spec:
  "((\<exists>raw v. parse_report6 data = Inr (Some raw) \<and> centered_u16_to_trigger raw R2_MAX = Inr v
        \<and> v \<noteq> last_r2 s
        \<and> on_hidraw (Data data) s = Inr (s\<lparr>last_r2 := v\<rparr>, [Write EV_ABS ABS_RZ v, Syn]))
    \<or> ((parse_report6 data = Inr None
          \<or> (\<exists>raw. parse_report6 data = Inr (Some raw)
                \<and> centered_u16_to_trigger raw R2_MAX = Inr (last_r2 s)))
        \<and> on_hidraw (Data data) s = Inr (s, [])))
   \<and> ((\<exists>s' v. on_hidraw (Data data) s = Inr (s', [Write EV_ABS ABS_RZ v, Syn]))
        \<longleftrightarrow> (\<exists>raw v. parse_report6 data = Inr (Some raw)
               \<and> centered_u16_to_trigger raw R2_MAX = Inr v \<and> v \<noteq> last_r2 s))
   \<and> (data \<noteq> [] \<and> data ! 0 \<noteq> 0x06 \<longrightarrow> on_hidraw (Data data) s = Inr (s, []))
   \<and> on_hidraw (Data [0x06, 0, 0, 0, 0, 0, 0, 0, 0, 0x00, 0x80, 0, 0, 0]) init_engine
        = Inr (init_engine, [])"
proof -
  let ?A = "\<exists>raw v. parse_report6 data = Inr (Some raw) \<and> centered_u16_to_trigger raw R2_MAX = Inr v
        \<and> v \<noteq> last_r2 s
        \<and> on_hidraw (Data data) s = Inr (s\<lparr>last_r2 := v\<rparr>, [Write EV_ABS ABS_RZ v, Syn])"
  let ?B = "(parse_report6 data = Inr None
          \<or> (\<exists>raw. parse_report6 data = Inr (Some raw)
                \<and> centered_u16_to_trigger raw R2_MAX = Inr (last_r2 s)))
        \<and> on_hidraw (Data data) s = Inr (s, [])"
  let ?L = "\<exists>s' v. on_hidraw (Data data) s = Inr (s', [Write EV_ABS ABS_RZ v, Syn])"
  let ?R = "\<exists>raw v. parse_report6 data = Inr (Some raw)
               \<and> centered_u16_to_trigger raw R2_MAX = Inr v \<and> v \<noteq> last_r2 s"
  consider (none) "parse_report6 data = Inr None"
    | (same) raw where "parse_report6 data = Inr (Some raw)" "nearest_scaled raw = last_r2 s"
    | (diff) raw where "parse_report6 data = Inr (Some raw)" "nearest_scaled raw \<noteq> last_r2 s"
    by (cases "parse_report6 data = Inr None") (auto simp add: parse_report6_eq split: if_splits)
  then have main: "(?A \<or> ?B) \<and> (?L \<longleftrightarrow> ?R)"
  proof cases
    case none
    then have "on_hidraw (Data data) s = Inr (s, [])" by (simp add: on_hidraw_eq)
    with none show ?thesis by simp
  next
    case same
    then have "on_hidraw (Data data) s = Inr (s, [])" by (simp add: on_hidraw_eq)
    with same show ?thesis by (simp add: centered_u16_to_trigger_exact)
  next
    case diff
    then have "on_hidraw (Data data) s
        = Inr (s\<lparr>last_r2 := nearest_scaled raw\<rparr>, [Write EV_ABS ABS_RZ (nearest_scaled raw), Syn])"
      by (simp add: on_hidraw_eq)
    with diff show ?thesis by (simp add: centered_u16_to_trigger_exact)
  qed
  have mismatch: "data \<noteq> [] \<and> data ! 0 \<noteq> 0x06 \<longrightarrow> on_hidraw (Data data) s = Inr (s, [])"
    by (simp add: on_hidraw_eq parse_report6_eq)
  have rest: "on_hidraw (Data [0x06, 0, 0, 0, 0, 0, 0, 0, 0, 0x00, 0x80, 0, 0, 0]) init_engine
        = Inr (init_engine, [])"
    by (simp add: on_hidraw_eq parse_report6_eq nearest_scaled_def clamped_delta_def
        init_engine_def)
  from main mismatch rest show ?thesis by blast
qed

theorem on_hidraw_spec_witness:
  "on_hidraw (Data [0x06, 0, 0, 0, 0, 0, 0, 0, 0, 0xFF, 0xFF, 0, 0, 0]) init_engine
     = Inr (init_engine\<lparr>last_r2 := 1023\<rparr>, [Write EV_ABS ABS_RZ 1023, Syn])
   \<and> on_hidraw (Data [0x01, 0, 0, 0, 0, 0, 0, 0, 0, 0xFF, 0xFF, 0, 0, 0]) init_engine
     = Inr (init_engine, [])"
  using on_hidraw_spec [of "[0x06, 0, 0, 0, 0, 0, 0, 0, 0, 0xFF, 0xFF, 0, 0, 0]" init_engine]
    on_hidraw_spec [of "[0x01, 0, 0, 0, 0, 0, 0, 0, 0, 0xFF, 0xFF, 0, 0, 0]" init_engine]
    centered_u16_to_trigger_exact [of "0xFFFF"]
  by (simp add: parse_report6_eq nearest_scaled_def clamped_delta_def init_engine_def)




end
